theory Spec2Isabelle
  imports Main
begin

section \<open>Values, errors and pending results\<close>

text \<open>
  Payloads, results and the arguments of completion callbacks are JavaScript values.
  Only their truthiness is inspected by the dispatcher (\<open>err ? reject(err) : resolve(err)\<close>),
  so a small universe of values is enough; \<open>Err m\<close> is an \<open>Error\<close> object.
\<close>

datatype jsval = Undefined | Null | Bool bool | Num int | Str string | Err string

fun truthy :: "jsval \<Rightarrow> bool" where
  "truthy Undefined = False"
| "truthy Null = False"
| "truthy (Bool b) = b"
| "truthy (Num n) = (n \<noteq> 0)"
| "truthy (Str s) = (s \<noteq> [])"
| "truthy (Err m) = True"

text \<open>
  What an operation can throw: the \<open>ApplicationError\<close> of the error package with its
  \<open>code\<close> and \<open>message\<close>, or the \<open>TypeError\<close> the runtime raises when a property is
  read from \<open>undefined\<close>.
\<close>

datatype error = ApplicationError string string | TypeError

text \<open>A promise, by the way it eventually settles.\<close>

datatype promise = Fulfilled jsval | Rejected jsval | Pending

text \<open>
  The two handler shapes \<open>onRequest\<close> accepts. A \<open>PromiseMethod\<close> takes the payload and
  returns a promise. A \<open>CallbackMethod\<close> takes the payload and a completion callback,
  which it invokes with \<open>(err, result)\<close>, or never (\<open>None\<close>).
\<close>

datatype rpc_handler =
    PromiseMethod "jsval \<Rightarrow> promise"
  | CallbackMethod "jsval \<Rightarrow> (jsval \<times> jsval) option"

text \<open>\<open>handler.length\<close>: the declared parameter count of the two shapes.\<close>

fun handler_length :: "rpc_handler \<Rightarrow> nat" where
  "handler_length (PromiseMethod f) = 1"
| "handler_length (CallbackMethod g) = 2"

section \<open>Registries and configuration\<close>

record 'h entry =
  id_e :: string
  handler :: 'h

text \<open>
  A registry is an object used as a dictionary from names to arrays of entries: a partial
  map, a name without a slot being \<open>None\<close>. Names are ordinary keys (the key
  \<open>__proto__\<close>, which an object treats specially, is left out).
\<close>

type_synonym 'h HandlersRegistry = "string \<rightharpoonup> 'h entry list"

record IntercomConfig =
  preventDuplicatedEventListeners :: bool
  throwErrorIfNoEventHandlerFound :: bool
  throwErrorIfNoMethodHandlerFound :: bool

definition defaultIntercomConfig :: IntercomConfig where
  "defaultIntercomConfig =
     \<lparr> preventDuplicatedEventListeners = False,
       throwErrorIfNoEventHandlerFound = False,
       throwErrorIfNoMethodHandlerFound = True \<rparr>"

text \<open>
  The dispatcher. Event handlers are opaque callables of type \<open>'h\<close>; the registry of RPC handlers
  stores the promise-based wrappers built by \<open>onRequest\<close>. The identifier generator is an
  external package: it is taken as a stream \<open>gen :: nat \<Rightarrow> string\<close> of the identifiers it
  hands out, and \<open>drawn\<close> counts how many have been taken from it.
\<close>

record 'h intercom =
  config :: IntercomConfig
  eventHandlers :: "'h HandlersRegistry"
  methodHandlers :: "(jsval \<Rightarrow> promise) HandlersRegistry"
  drawn :: nat

text \<open>The constructor: the defaults, overridden by the configuration supplied, if any.\<close>

definition Intercom :: "IntercomConfig option \<Rightarrow> nat \<Rightarrow> 'h intercom" where
  "Intercom cfg n =
     \<lparr> config = (case cfg of None \<Rightarrow> defaultIntercomConfig | Some c \<Rightarrow> c),
       eventHandlers = Map.empty,
       methodHandlers = Map.empty,
       drawn = n \<rparr>"

text \<open>The entries registered under a name; a name without a slot has none.\<close>

definition handlersOf :: "'h HandlersRegistry \<Rightarrow> string \<Rightarrow> 'h entry list" where
  "handlersOf registry handlerName =
     (case registry handlerName of None \<Rightarrow> [] | Some es \<Rightarrow> es)"

section \<open>Utility methods\<close>

definition prepareHandlersRegistry ::
  "'h HandlersRegistry \<Rightarrow> string \<Rightarrow> 'h HandlersRegistry" where
  "prepareHandlersRegistry registry handlerName =
     (let handlerCollectionExists = (registry handlerName \<noteq> None)
      in if \<not> handlerCollectionExists then registry(handlerName \<mapsto> []) else registry)"

definition no_handler_message :: "string \<Rightarrow> string" where
  "no_handler_message handlerName =
     ''No handler is registered for '' @ [CHR 0x27] @ handlerName @ [CHR 0x27]
       @ '' on the registry.''"

definition already_exists_message :: "string \<Rightarrow> string" where
  "already_exists_message handlerName =
     ''There is an already registered handler for '' @ [CHR 0x27] @ handlerName @ [CHR 0x27]
       @ '' on the registry.''"

abbreviation NoHandlerError :: "string \<Rightarrow> error" where
  "NoHandlerError handlerName \<equiv>
     ApplicationError ''E_NO_HANDLER'' (no_handler_message handlerName)"

abbreviation AlreadyExistsError :: "string \<Rightarrow> error" where
  "AlreadyExistsError handlerName \<equiv>
     ApplicationError ''E_ALREADY_EXISTS'' (already_exists_message handlerName)"

text \<open>
  Reading \<open>registry[handlerName].length\<close> on a name without a slot reads a property of
  \<open>undefined\<close>: a \<open>TypeError\<close>.
\<close>

definition ensureHandlersExists ::
  "'h HandlersRegistry \<Rightarrow> string \<Rightarrow> bool \<Rightarrow> error + unit" where
  "ensureHandlersExists registry handlerName throwErrorIfNotExists =
     (case registry handlerName of
        None \<Rightarrow> Inl TypeError
      | Some es \<Rightarrow>
          (let handlerExists = (length es > 0)
           in if \<not> handlerExists \<and> throwErrorIfNotExists
              then Inl (NoHandlerError handlerName)
              else Inr ()))"

definition preventRegisteringMoreThanOneHandler ::
  "'h HandlersRegistry \<Rightarrow> string \<Rightarrow> bool \<Rightarrow> error + unit" where
  "preventRegisteringMoreThanOneHandler registry handlerName throwErrorIfExists =
     (case registry handlerName of
        None \<Rightarrow> Inl TypeError
      | Some es \<Rightarrow>
          (let handlerExists = (length es > 0)
           in if handlerExists \<and> throwErrorIfExists
              then Inl (AlreadyExistsError handlerName)
              else Inr ()))"

definition removeAllHandlers ::
  "'h HandlersRegistry \<Rightarrow> string \<Rightarrow> 'h HandlersRegistry" where
  "removeAllHandlers registry handlerName = registry(handlerName := None)"

definition removeHandlerById ::
  "'h HandlersRegistry \<Rightarrow> string \<Rightarrow> string \<Rightarrow> error + 'h HandlersRegistry" where
  "removeHandlerById registry handlerName handlerId =
     (case registry handlerName of
        None \<Rightarrow> Inl TypeError
      | Some es \<Rightarrow> Inr (registry(handlerName \<mapsto> filter (\<lambda>e. id_e e \<noteq> handlerId) es)))"

text \<open>\<open>Array.prototype.findIndex\<close>: the first index whose element satisfies \<open>p\<close>, or \<open>-1\<close>.\<close>

fun findIndex :: "('a \<Rightarrow> bool) \<Rightarrow> 'a list \<Rightarrow> int" where
  "findIndex p [] = - 1"
| "findIndex p (x # xs) =
     (if p x then 0 else (let i = findIndex p xs in if i = - 1 then - 1 else i + 1))"

text \<open>
  The \<open>do ... while (isUnique === false)\<close> loop over the entries of the slot: \<open>n\<close> is the
  position in the generator's stream. The loop has no bound, so not returning is the
  value \<open>None\<close>.
\<close>

partial_function (option) generateUniqueIdentifier_loop ::
  "(nat \<Rightarrow> string) \<Rightarrow> 'h entry list \<Rightarrow> nat \<Rightarrow> (string \<times> nat) option" where
  "generateUniqueIdentifier_loop gen es n =
     (let generatedId = gen n;
          isUnique = (findIndex (\<lambda>e. id_e e = generatedId) es = - 1)
      in if isUnique = False
         then generateUniqueIdentifier_loop gen es (Suc n)
         else Some (generatedId, Suc n))"

text \<open>
  The first identifier is generated before the slot is read, so on a name without a slot
  the \<open>TypeError\<close> comes after one identifier has been drawn.
\<close>

definition generateUniqueIdentifier ::
  "(nat \<Rightarrow> string) \<Rightarrow> 'h HandlersRegistry \<Rightarrow> string \<Rightarrow> nat \<Rightarrow> ((error + string) \<times> nat) option" where
  "generateUniqueIdentifier gen registry handlerName n =
     (case registry handlerName of
        None \<Rightarrow> Some (Inl TypeError, Suc n)
      | Some es \<Rightarrow>
          (case generateUniqueIdentifier_loop gen es n of
             None \<Rightarrow> None
           | Some (generatedId, n') \<Rightarrow> Some (Inr generatedId, n')))"

text \<open>\<open>xs[i]\<close>: the element, or \<open>undefined\<close> (\<open>None\<close>) beyond the end.\<close>

definition at_index :: "'a list \<Rightarrow> nat \<Rightarrow> 'a option" where
  "at_index xs i = (if i < length xs then Some (xs ! i) else None)"

section \<open>Event methods\<close>

text \<open>
  \<open>emit\<close> hands one task per registered handler to \<open>setImmediate\<close>, in registration
  order; the result is the list of tasks scheduled, each a handler with the payload.
\<close>

definition emit ::
  "string \<Rightarrow> jsval \<Rightarrow> bool option \<Rightarrow> 'h intercom \<Rightarrow> (error + ('h \<times> jsval) list) \<times> 'h intercom" where
  "emit eventName payload cfg s =
     (let s1 = s\<lparr>eventHandlers := prepareHandlersRegistry (eventHandlers s) eventName\<rparr>
      in case ensureHandlersExists (eventHandlers s1) eventName
                (case cfg of
                   Some c \<Rightarrow> c
                 | None \<Rightarrow> throwErrorIfNoEventHandlerFound (config s1)) of
           Inl e \<Rightarrow> (Inl e, s1)
         | Inr _ \<Rightarrow>
             (case eventHandlers s1 eventName of
                None \<Rightarrow> (Inl TypeError, s1)
              | Some es \<Rightarrow> (Inr (map (\<lambda>h. (handler h, payload)) es), s1)))"

text \<open>
  \<open>push\<close> returns the new length of the array, and \<open>onEvent\<close> reads the entry at that
  index to return its \<open>id\<close>.
\<close>

definition onEvent ::
  "(nat \<Rightarrow> string) \<Rightarrow> string \<Rightarrow> 'h \<Rightarrow> bool option \<Rightarrow> 'h intercom
     \<Rightarrow> ((error + string) \<times> 'h intercom) option" where
  "onEvent gen eventName h cfg s =
     (let s1 = s\<lparr>eventHandlers := prepareHandlersRegistry (eventHandlers s) eventName\<rparr>
      in case preventRegisteringMoreThanOneHandler (eventHandlers s1) eventName
                ((case cfg of Some c \<Rightarrow> c | None \<Rightarrow> False)
                 \<or> preventDuplicatedEventListeners (config s1)) of
           Inl e \<Rightarrow> Some (Inl e, s1)
         | Inr _ \<Rightarrow>
             (case eventHandlers s1 eventName of
                None \<Rightarrow> Some (Inl TypeError, s1)
              | Some es \<Rightarrow>
                  (case generateUniqueIdentifier gen (eventHandlers s1) eventName (drawn s1) of
                     None \<Rightarrow> None
                   | Some (Inl e, n') \<Rightarrow> Some (Inl e, s1\<lparr>drawn := n'\<rparr>)
                   | Some (Inr i, n') \<Rightarrow>
                       (let es' = es @ [\<lparr>id_e = i, handler = h\<rparr>];
                            insertedHandlerIndex = length es';
                            s2 = s1\<lparr>eventHandlers := (eventHandlers s1)(eventName \<mapsto> es'),
                                    drawn := n'\<rparr>
                        in case at_index es' insertedHandlerIndex of
                             None \<Rightarrow> Some (Inl TypeError, s2)
                           | Some e \<Rightarrow> Some (Inr (id_e e), s2)))))"

definition removeAllEventHandlers :: "string \<Rightarrow> 'h intercom \<Rightarrow> 'h intercom" where
  "removeAllEventHandlers eventName s =
     s\<lparr>eventHandlers :=
         removeAllHandlers (prepareHandlersRegistry (eventHandlers s) eventName) eventName\<rparr>"

definition removeEventHandler ::
  "string \<Rightarrow> string \<Rightarrow> 'h intercom \<Rightarrow> (error + unit) \<times> 'h intercom" where
  "removeEventHandler eventName handlerId s =
     (let s1 = s\<lparr>eventHandlers := prepareHandlersRegistry (eventHandlers s) eventName\<rparr>
      in case removeHandlerById (eventHandlers s1) eventName handlerId of
           Inl e \<Rightarrow> (Inl e, s1)
         | Inr registry \<Rightarrow> (Inr (), s1\<lparr>eventHandlers := registry\<rparr>))"

section \<open>RPC methods\<close>

text \<open>
  What a caller of \<open>request\<close> observes: in promise mode the promise returned, in callback
  mode the arguments its callback is eventually invoked with (\<open>None\<close>: never invoked).
\<close>

datatype outcome = Returned promise | Called "(jsval \<times> jsval) option"

definition request ::
  "string \<Rightarrow> jsval \<Rightarrow> bool option \<Rightarrow> bool \<Rightarrow> 'h intercom \<Rightarrow> (error + outcome) \<times> 'h intercom" where
  "request methodName payload cfg callback s =
     (let s1 = s\<lparr>methodHandlers := prepareHandlersRegistry (methodHandlers s) methodName\<rparr>
      in case ensureHandlersExists (methodHandlers s1) methodName
                ((case cfg of Some c \<Rightarrow> c | None \<Rightarrow> False)
                 \<or> throwErrorIfNoMethodHandlerFound (config s1)) of
           Inl e \<Rightarrow> (Inl e, s1)
         | Inr _ \<Rightarrow>
             (case methodHandlers s1 methodName of
                None \<Rightarrow> (Inl TypeError, s1)
              | Some es \<Rightarrow>
                  (case at_index es 0 of
                     None \<Rightarrow> (Inl TypeError, s1)
                   | Some e \<Rightarrow>
                       (if callback
                        then (Inr (Called
                                (case handler e payload of
                                   Fulfilled result \<Rightarrow> Some (Undefined, result)
                                 | Rejected err \<Rightarrow> Some (err, Undefined)
                                 | Pending \<Rightarrow> None)), s1)
                        else (Inr (Returned (handler e payload)), s1)))))"

text \<open>
  The promise-based wrapper stored by \<open>onRequest\<close>. The test \<open>handler.length === 1\<close>
  separates the two shapes (\<open>handler_length\<close>): a \<open>PromiseMethod\<close> is called as it is, a
  \<open>CallbackMethod\<close> is called with the completion callback
  \<open>(err, result) => err ? reject(err) : resolve(err)\<close> of a new promise.
\<close>

fun wrapper :: "rpc_handler \<Rightarrow> jsval \<Rightarrow> promise" where
  "wrapper (PromiseMethod f) payload = f payload"
| "wrapper (CallbackMethod g) payload =
     (case g payload of
        None \<Rightarrow> Pending
      | Some (err, result) \<Rightarrow> (if truthy err then Rejected err else Fulfilled err))"

definition onRequest ::
  "(nat \<Rightarrow> string) \<Rightarrow> string \<Rightarrow> rpc_handler \<Rightarrow> 'h intercom \<Rightarrow> ((error + string) \<times> 'h intercom) option" where
  "onRequest gen methodName h s =
     (let s1 = s\<lparr>methodHandlers := prepareHandlersRegistry (methodHandlers s) methodName\<rparr>
      in case preventRegisteringMoreThanOneHandler (methodHandlers s1) methodName True of
           Inl e \<Rightarrow> Some (Inl e, s1)
         | Inr _ \<Rightarrow>
             (case generateUniqueIdentifier gen (methodHandlers s1) methodName (drawn s1) of
                None \<Rightarrow> None
              | Some (Inl e, n') \<Rightarrow> Some (Inl e, s1\<lparr>drawn := n'\<rparr>)
              | Some (Inr handlerIdentifier, n') \<Rightarrow>
                  Some (Inr handlerIdentifier,
                        s1\<lparr>methodHandlers :=
                             (methodHandlers s1)
                               (methodName \<mapsto> [\<lparr>id_e = handlerIdentifier, handler = wrapper h\<rparr>]),
                           drawn := n'\<rparr>)))"

definition removeMethodHandler :: "string \<Rightarrow> 'h intercom \<Rightarrow> 'h intercom" where
  "removeMethodHandler methodName s =
     s\<lparr>methodHandlers := removeAllHandlers (methodHandlers s) methodName\<rparr>"

section \<open>Reachable dispatcher states\<close>

text \<open>
  The states a dispatcher can be in: the one the constructor builds, and every state a
  public operation leaves behind, whether it returned or threw.
\<close>

inductive reachable :: "(nat \<Rightarrow> string) \<Rightarrow> 'h intercom \<Rightarrow> bool" for gen :: "nat \<Rightarrow> string" where
  r_new: "reachable gen (Intercom cfg n)"
| r_emit: "reachable gen s \<Longrightarrow> reachable gen (snd (emit eventName payload c s))"
| r_onEvent:
    "reachable gen s \<Longrightarrow> onEvent gen eventName h c s = Some (r, s') \<Longrightarrow> reachable gen s'"
| r_removeAllEventHandlers:
    "reachable gen s \<Longrightarrow> reachable gen (removeAllEventHandlers eventName s)"
| r_removeEventHandler:
    "reachable gen s \<Longrightarrow> reachable gen (snd (removeEventHandler eventName handlerId s))"
| r_request:
    "reachable gen s \<Longrightarrow> reachable gen (snd (request methodName payload c callback s))"
| r_onRequest:
    "reachable gen s \<Longrightarrow> onRequest gen methodName m s = Some (r, s') \<Longrightarrow> reachable gen s'"
| r_removeMethodHandler:
    "reachable gen s \<Longrightarrow> reachable gen (removeMethodHandler methodName s)"

section \<open>Exclusive registries\<close>

text \<open>A registry is exclusive when no name holds more than one entry.\<close>

definition exclusive :: "'h HandlersRegistry \<Rightarrow> bool" where
  "exclusive registry = (\<forall>n. length (handlersOf registry n) \<le> 1)"

section \<open>Concrete inputs\<close>

text \<open>A generator that never repeats itself: \<open>a\<close>, \<open>aa\<close>, \<open>aaa\<close>, ...\<close>

definition seq_ids :: "nat \<Rightarrow> string" where
  "seq_ids n = replicate (Suc n) (CHR ''a'')"

text \<open>
  Two promise-style handlers, and a callback-style handler that completes successfully
  with the result \<open>42\<close>.
\<close>

definition first_responder :: rpc_handler where
  "first_responder = PromiseMethod (\<lambda>payload. Fulfilled (Str ''first''))"

definition second_responder :: rpc_handler where
  "second_responder = PromiseMethod (\<lambda>payload. Fulfilled (Str ''second''))"

definition callback_responder :: rpc_handler where
  "callback_responder = CallbackMethod (\<lambda>payload. Some (Undefined, Num 42))"

text \<open>A fresh dispatcher with the default configuration, its event handlers named by numbers.\<close>

definition fresh :: "nat intercom" where
  "fresh = Intercom None 0"

text \<open>The state \<open>onRequest\<close> leaves when it registers \<open>h\<close> under \<open>sum\<close> on the fresh dispatcher.\<close>

definition registered :: "rpc_handler \<Rightarrow> nat intercom" where
  "registered h =
     \<lparr> config = defaultIntercomConfig,
       eventHandlers = Map.empty,
       methodHandlers = [''sum'' \<mapsto> [\<lparr>id_e = ''a'', handler = wrapper h\<rparr>]],
       drawn = 1 \<rparr>"

text \<open>The states one and two calls of \<open>onEvent\<close> for \<open>tick\<close> leave on the fresh dispatcher.\<close>

definition one_listener :: "nat intercom" where
  "one_listener =
     \<lparr> config = defaultIntercomConfig,
       eventHandlers = [''tick'' \<mapsto> [\<lparr>id_e = ''a'', handler = 7\<rparr>]],
       methodHandlers = Map.empty,
       drawn = 1 \<rparr>"

definition two_listeners :: "nat intercom" where
  "two_listeners =
     \<lparr> config = defaultIntercomConfig,
       eventHandlers =
         [''tick'' \<mapsto> [\<lparr>id_e = ''a'', handler = 7\<rparr>, \<lparr>id_e = ''aa'', handler = 8\<rparr>]],
       methodHandlers = Map.empty,
       drawn = 2 \<rparr>"

text \<open>A dispatcher built with every flag off.\<close>

definition lenient :: "nat intercom" where
  "lenient =
     Intercom (Some \<lparr> preventDuplicatedEventListeners = False,
                      throwErrorIfNoEventHandlerFound = False,
                      throwErrorIfNoMethodHandlerFound = False \<rparr>) 0"

section \<open>Basic facts about the utility methods\<close>

lemma prepare_same [simp]:
  "prepareHandlersRegistry registry n n = Some (handlersOf registry n)"
  by (simp add: prepareHandlersRegistry_def handlersOf_def split: option.splits)

lemma prepare_other [simp]:
  "m \<noteq> n \<Longrightarrow> prepareHandlersRegistry registry n m = registry m"
  by (simp add: prepareHandlersRegistry_def)

lemma prepare_present:
  "registry n = Some es \<Longrightarrow> prepareHandlersRegistry registry n = registry"
  by (simp add: prepareHandlersRegistry_def)

lemma handlersOf_prepare [simp]:
  "handlersOf (prepareHandlersRegistry registry n) m = handlersOf registry m"
  by (cases "m = n") (simp_all add: handlersOf_def)

text \<open>The length test of the wrapper picks out the promise-style handlers.\<close>

lemma wrapper_by_length:
  "handler_length h = 1 \<Longrightarrow> \<exists>f. h = PromiseMethod f \<and> wrapper h = f"
  by (cases h) auto

lemma no_handler_message_inj:
  "no_handler_message a = no_handler_message b \<Longrightarrow> a = b"
  by (simp add: no_handler_message_def)

lemma already_exists_message_inj:
  "already_exists_message a = already_exists_message b \<Longrightarrow> a = b"
  by (simp add: already_exists_message_def)

lemma handlersOf_Some: "registry n = Some es \<Longrightarrow> handlersOf registry n = es"
  by (simp add: handlersOf_def)

lemma handlersOf_nonempty:
  "handlersOf registry n \<noteq> [] \<Longrightarrow> registry n = Some (handlersOf registry n)"
  by (cases "registry n") (simp_all add: handlersOf_def)

lemma prepare_nonempty:
  "handlersOf registry n \<noteq> [] \<Longrightarrow> prepareHandlersRegistry registry n = registry"
  by (cases "registry n") (simp_all add: handlersOf_def prepareHandlersRegistry_def)

lemma prepare_upd [simp]:
  "(prepareHandlersRegistry registry n)(n \<mapsto> es) = registry(n \<mapsto> es)"
  by (simp add: prepareHandlersRegistry_def)


section \<open>The identifier loop\<close>

lemma findIndex_ge: "- 1 \<le> findIndex p xs"
  by (induction xs) (auto simp: Let_def)

lemma findIndex_none: "(findIndex p xs = - 1) = (\<forall>x\<in>set xs. \<not> p x)"
proof (induction xs)
  case Nil
  then show ?case by simp
next
  case (Cons x xs)
  have "findIndex p xs + 1 \<noteq> - 1"
    using findIndex_ge [of p xs] by arith
  with Cons show ?case by (auto simp: Let_def)
qed

lemma loop_step:
  "generateUniqueIdentifier_loop gen es n =
     (if gen n \<in> id_e ` set es then generateUniqueIdentifier_loop gen es (Suc n)
      else Some (gen n, Suc n))"
proof -
  have "(findIndex (\<lambda>e. id_e e = gen n) es = - 1) = (gen n \<notin> id_e ` set es)"
    unfolding findIndex_none by (auto simp: image_iff)
  then show ?thesis
    by (subst generateUniqueIdentifier_loop.simps) (simp add: Let_def)
qed

lemma loop_first_fresh:
  "gen (n + k) \<notin> id_e ` set es \<Longrightarrow> \<forall>j<k. gen (n + j) \<in> id_e ` set es \<Longrightarrow>
   generateUniqueIdentifier_loop gen es n = Some (gen (n + k), Suc (n + k))"
proof (induction k arbitrary: n)
  case 0
  then show ?case by (subst loop_step) simp
next
  case (Suc k)
  have here: "gen n \<in> id_e ` set es"
    using Suc.prems(2) [rule_format, of 0] by simp
  have later: "\<forall>j<k. gen (Suc n + j) \<in> id_e ` set es"
    using Suc.prems(2) [rule_format, of "Suc j" for j] by simp
  have "generateUniqueIdentifier_loop gen es (Suc n) = Some (gen (Suc n + k), Suc (Suc n + k))"
    using Suc.IH [of "Suc n"] Suc.prems(1) later by simp
  with here show ?case by (subst loop_step) simp
qed

lemma loop_returns_fresh:
  "generateUniqueIdentifier_loop gen es n = Some r \<Longrightarrow> \<exists>k. gen (n + k) \<notin> id_e ` set es"
proof (induct rule: generateUniqueIdentifier_loop.raw_induct [rotated, consumes 1])
  case (1 loop gen es n r)
  show ?case
  proof (cases "gen n \<in> id_e ` set es")
    case True
    then have "findIndex (\<lambda>e. id_e e = gen n) es \<noteq> - 1"
      unfolding findIndex_none by auto
    with 1(2) have "loop gen es (Suc n) = Some r"
      by (simp add: Let_def)
    then obtain k where "gen (Suc n + k) \<notin> id_e ` set es"
      using 1(1) by blast
    then show ?thesis by (intro exI [of _ "Suc k"]) simp
  next
    case False
    then show ?thesis by (intro exI [of _ 0]) simp
  qed
qed

lemma loop_result:
  assumes "generateUniqueIdentifier_loop gen es n = Some (i, n')"
  shows "\<exists>k. i = gen (n + k) \<and> n' = Suc (n + k) \<and> gen (n + k) \<notin> id_e ` set es
              \<and> (\<forall>j<k. gen (n + j) \<in> id_e ` set es)"
proof -
  define fresh_at where "fresh_at k = (gen (n + k) \<notin> id_e ` set es)" for k
  from loop_returns_fresh [OF assms] have ex: "\<exists>k. fresh_at k"
    by (simp add: fresh_at_def)
  define k where "k = (LEAST k. fresh_at k)"
  have fk: "fresh_at k"
    unfolding k_def using ex by (rule LeastI_ex)
  have before: "\<forall>j<k. \<not> fresh_at j"
    unfolding k_def using not_less_Least by blast
  have "generateUniqueIdentifier_loop gen es n = Some (gen (n + k), Suc (n + k))"
    using fk before by (intro loop_first_fresh) (simp_all add: fresh_at_def)
  with assms have "i = gen (n + k)" "n' = Suc (n + k)" by simp_all
  with fk before show ?thesis
    by (auto simp: fresh_at_def)
qed

lemma loop_diverges:
  "\<forall>k. gen (n + k) \<in> id_e ` set es \<Longrightarrow> generateUniqueIdentifier_loop gen es n = None"
  using loop_returns_fresh [of gen es n] by (cases "generateUniqueIdentifier_loop gen es n") auto

lemma inj_gen_fresh:
  assumes "inj gen"
  shows "\<exists>k\<le>length es. gen (n + k) \<notin> id_e ` set es"
proof (rule ccontr)
  assume "\<not> ?thesis"
  then have sub: "(\<lambda>k. gen (n + k)) ` {..length es} \<subseteq> id_e ` set es"
    by auto
  have "inj_on (\<lambda>k. gen (n + k)) {..length es}"
  proof (rule inj_onI)
    fix x y
    assume "gen (n + x) = gen (n + y)"
    with assms have "n + x = n + y" by (rule injD)
    then show "x = y" by simp
  qed
  then have "card ((\<lambda>k. gen (n + k)) ` {..length es}) = Suc (length es)"
    by (simp add: card_image)
  moreover have "card (id_e ` set es) \<le> length es"
    by (meson card_image_le card_length le_trans List.finite_set)
  ultimately show False
    using card_mono [OF _ sub] by simp
qed


section \<open>The operations, each in one equation\<close>

lemma emit_eq:
  "emit eventName payload cfg s =
     (if handlersOf (eventHandlers s) eventName = []
         \<and> (case cfg of Some c \<Rightarrow> c | None \<Rightarrow> throwErrorIfNoEventHandlerFound (config s))
      then Inl (NoHandlerError eventName)
      else Inr (map (\<lambda>h. (handler h, payload)) (handlersOf (eventHandlers s) eventName)),
      s\<lparr>eventHandlers := prepareHandlersRegistry (eventHandlers s) eventName\<rparr>)"
  by (cases cfg) (simp_all add: emit_def ensureHandlersExists_def Let_def)

lemma request_eq:
  "request methodName payload cfg callback s =
     (if handlersOf (methodHandlers s) methodName = []
      then (if (case cfg of Some c \<Rightarrow> c | None \<Rightarrow> False)
                 \<or> throwErrorIfNoMethodHandlerFound (config s)
            then Inl (NoHandlerError methodName) else Inl TypeError)
      else Inr (if callback
                then Called (case handler (hd (handlersOf (methodHandlers s) methodName)) payload of
                               Fulfilled result \<Rightarrow> Some (Undefined, result)
                             | Rejected err \<Rightarrow> Some (err, Undefined)
                             | Pending \<Rightarrow> None)
                else Returned (handler (hd (handlersOf (methodHandlers s) methodName)) payload)),
      s\<lparr>methodHandlers := prepareHandlersRegistry (methodHandlers s) methodName\<rparr>)"
  by (cases cfg; cases "handlersOf (methodHandlers s) methodName")
     (simp_all add: request_def ensureHandlersExists_def at_index_def Let_def)

lemma generate_eq:
  "generateUniqueIdentifier gen (prepareHandlersRegistry registry n) n k =
     (case generateUniqueIdentifier_loop gen (handlersOf registry n) k of
        None \<Rightarrow> None
      | Some (i, k') \<Rightarrow> Some (Inr i, k'))"
  by (simp add: generateUniqueIdentifier_def)

lemma onRequest_eq:
  "onRequest gen methodName h s =
     (if handlersOf (methodHandlers s) methodName \<noteq> []
      then Some (Inl (AlreadyExistsError methodName), s)
      else Some (Inr (gen (drawn s)),
                 s\<lparr>methodHandlers :=
                      (methodHandlers s)
                        (methodName \<mapsto> [\<lparr>id_e = gen (drawn s), handler = wrapper h\<rparr>]),
                    drawn := Suc (drawn s)\<rparr>))"
proof (cases "handlersOf (methodHandlers s) methodName = []")
  case True
  then show ?thesis
    by (simp add: onRequest_def preventRegisteringMoreThanOneHandler_def generate_eq
        loop_step Let_def)
next
  case False
  then obtain es where "methodHandlers s methodName = Some es" "es \<noteq> []"
    using handlersOf_nonempty by metis
  with False show ?thesis
    by (simp add: onRequest_def preventRegisteringMoreThanOneHandler_def prepare_nonempty
        Let_def)
qed

lemma onEvent_eq:
  "onEvent gen eventName h cfg s =
     (if handlersOf (eventHandlers s) eventName \<noteq> []
         \<and> ((case cfg of Some c \<Rightarrow> c | None \<Rightarrow> False)
            \<or> preventDuplicatedEventListeners (config s))
      then Some (Inl (AlreadyExistsError eventName), s)
      else (case generateUniqueIdentifier_loop gen (handlersOf (eventHandlers s) eventName)
                   (drawn s) of
              None \<Rightarrow> None
            | Some (i, n') \<Rightarrow>
                Some (Inl TypeError,
                      s\<lparr>eventHandlers :=
                           (eventHandlers s)
                             (eventName \<mapsto> handlersOf (eventHandlers s) eventName
                                               @ [\<lparr>id_e = i, handler = h\<rparr>]),
                         drawn := n'\<rparr>)))"
proof (cases "handlersOf (eventHandlers s) eventName \<noteq> []
         \<and> ((case cfg of Some c \<Rightarrow> c | None \<Rightarrow> False)
            \<or> preventDuplicatedEventListeners (config s))")
  case True
  then obtain es where "eventHandlers s eventName = Some es" "es \<noteq> []"
    using handlersOf_nonempty by metis
  with True show ?thesis
    by (cases cfg)
       (simp_all add: onEvent_def preventRegisteringMoreThanOneHandler_def prepare_nonempty
          Let_def)
next
  case False
  then show ?thesis
    by (cases cfg)
       (auto simp add: onEvent_def preventRegisteringMoreThanOneHandler_def generate_eq
          at_index_def Let_def split: option.splits)
qed

lemma removeEventHandler_eq:
  "removeEventHandler eventName handlerId s =
     (Inr (),
      s\<lparr>eventHandlers :=
           (eventHandlers s)
             (eventName \<mapsto> filter (\<lambda>e. id_e e \<noteq> handlerId)
                               (handlersOf (eventHandlers s) eventName))\<rparr>)"
  by (simp add: removeEventHandler_def removeHandlerById_def Let_def)

section \<open>Emitting without handlers\<close>

text \<open>
  Claim C5. When no event handler is registered under a name (the name has no slot, or
  an empty one), \<open>emit\<close> on a dispatcher with the default configuration and no per-call
  configuration throws nothing and schedules no task, and the entries registered under
  every name stay as they were; \<open>emit\<close> with \<open>throwErrorIfNoEventHandlerFound\<close> set to
  true, in the call or in the dispatcher's configuration, throws the \<open>E_NO_HANDLER\<close>
  error whose message quotes the name, before anything is scheduled.
\<close>

theorem emit_without_handlers:
  assumes "handlersOf (eventHandlers s) eventName = []"
  shows "(config s = defaultIntercomConfig \<longrightarrow>
            fst (emit eventName payload None s) = Inr []
            \<and> (\<forall>n. handlersOf (eventHandlers (snd (emit eventName payload None s))) n
                     = handlersOf (eventHandlers s) n)
            \<and> methodHandlers (snd (emit eventName payload None s)) = methodHandlers s)
         \<and> fst (emit eventName payload (Some True) s)
             = Inl (ApplicationError ''E_NO_HANDLER''
                     (''No handler is registered for '' @ [CHR 0x27] @ eventName @ [CHR 0x27]
                        @ '' on the registry.''))
         \<and> (throwErrorIfNoEventHandlerFound (config s) \<longrightarrow>
              fst (emit eventName payload None s) = Inl (NoHandlerError eventName))"
  using assms
  by (simp add: emit_eq defaultIntercomConfig_def no_handler_message_def)

theorem emit_without_handlers_witness:
  "handlersOf (eventHandlers fresh) ''ping'' = []
   \<and> config fresh = defaultIntercomConfig
   \<and> fst (emit ''ping'' (Num 1) None fresh) = Inr []
   \<and> fst (emit ''ping'' (Num 1) (Some True) fresh) = Inl (NoHandlerError ''ping'')"
proof -
  have h: "handlersOf (eventHandlers fresh) ''ping'' = []"
    by (simp add: fresh_def Intercom_def handlersOf_def)
  have c: "config fresh = defaultIntercomConfig"
    by (simp add: fresh_def Intercom_def)
  show ?thesis
    using h c emit_without_handlers [OF h, of "Num 1"]
    by (simp add: no_handler_message_def)
qed

section \<open>Identifier generation\<close>

text \<open>The generator of the concrete inputs never repeats itself.\<close>

lemma seq_ids_inj: "inj seq_ids"
  by (rule injI) (simp add: seq_ids_def)

text \<open>
  Claim C6. On a prepared slot \<open>generateUniqueIdentifier\<close> never throws and never returns an
  identifier that an entry of the slot already carries. It draws identifiers until one is
  free: when the generator's stream holds a free identifier from position \<open>n\<close> on, the
  call returns the first such identifier, after drawing every colliding one before it;
  a generator that never repeats itself reaches one within \<open>length es + 1\<close> draws. (If
  every identifier still to come collided, the loop would run forever, \<open>loop_diverges\<close>:
  it never gives up.)
\<close>

theorem generateUniqueIdentifier_fresh:
  assumes "registry handlerName = Some es"
  shows "(\<forall>r n'. generateUniqueIdentifier gen registry handlerName n = Some (r, n')
            \<longrightarrow> (\<exists>i. r = Inr i \<and> i \<notin> id_e ` set es))
         \<and> ((\<exists>k. gen (n + k) \<notin> id_e ` set es) \<longrightarrow>
              (\<exists>k. generateUniqueIdentifier gen registry handlerName n
                      = Some (Inr (gen (n + k)), Suc (n + k))
                    \<and> gen (n + k) \<notin> id_e ` set es
                    \<and> (\<forall>j<k. gen (n + j) \<in> id_e ` set es)))
         \<and> (inj gen \<longrightarrow>
              (\<exists>i n'. generateUniqueIdentifier gen registry handlerName n = Some (Inr i, n')
                       \<and> i \<notin> id_e ` set es \<and> n' \<le> Suc (n + length es)))"
proof (intro conjI allI impI)
  fix r n'
  assume "generateUniqueIdentifier gen registry handlerName n = Some (r, n')"
  with assms obtain i where
    loop: "generateUniqueIdentifier_loop gen es n = Some (i, n')" and r: "r = Inr i"
    by (auto simp: generateUniqueIdentifier_def split: option.splits)
  from loop_result [OF loop] r show "\<exists>i. r = Inr i \<and> i \<notin> id_e ` set es"
    by auto
next
  assume "\<exists>k. gen (n + k) \<notin> id_e ` set es"
  then obtain k where k: "gen (n + k) \<notin> id_e ` set es"
    and least: "\<forall>j<k. gen (n + j) \<in> id_e ` set es"
    using exists_least_iff [of "\<lambda>k. gen (n + k) \<notin> id_e ` set es"] by auto
  from loop_first_fresh [OF k least] assms k least
  show "\<exists>k. generateUniqueIdentifier gen registry handlerName n
               = Some (Inr (gen (n + k)), Suc (n + k))
             \<and> gen (n + k) \<notin> id_e ` set es
             \<and> (\<forall>j<k. gen (n + j) \<in> id_e ` set es)"
    by (intro exI [of _ k]) (simp add: generateUniqueIdentifier_def)
next
  assume "inj gen"
  from inj_gen_fresh [OF this, of es n] obtain k0 where
    k0: "k0 \<le> length es" "gen (n + k0) \<notin> id_e ` set es"
    by blast
  then obtain k where k: "gen (n + k) \<notin> id_e ` set es"
    and least: "\<forall>j<k. gen (n + j) \<in> id_e ` set es"
    using exists_least_iff [of "\<lambda>k. gen (n + k) \<notin> id_e ` set es"] by auto
  have "k \<le> k0"
    using k0(2) least by (meson not_le_imp_less)
  with k0(1) loop_first_fresh [OF k least] assms k
  show "\<exists>i n'. generateUniqueIdentifier gen registry handlerName n = Some (Inr i, n')
                \<and> i \<notin> id_e ` set es \<and> n' \<le> Suc (n + length es)"
    by (simp add: generateUniqueIdentifier_def)
qed

theorem generateUniqueIdentifier_fresh_witness:
  "[''tick'' \<mapsto> [\<lparr>id_e = ''a'', handler = 7 :: nat\<rparr>]] ''tick''
     = Some [\<lparr>id_e = ''a'', handler = 7\<rparr>]
   \<and> seq_ids (0 + 0) \<in> id_e ` set [\<lparr>id_e = ''a'', handler = 7 :: nat\<rparr>]
   \<and> seq_ids (0 + 1) \<notin> id_e ` set [\<lparr>id_e = ''a'', handler = 7 :: nat\<rparr>]
   \<and> generateUniqueIdentifier seq_ids [''tick'' \<mapsto> [\<lparr>id_e = ''a'', handler = 7 :: nat\<rparr>]]
        ''tick'' 0 = Some (Inr ''aa'', 2)"
proof -
  let ?es = "[\<lparr>id_e = ''a'', handler = 7 :: nat\<rparr>]"
  let ?reg = "[''tick'' \<mapsto> ?es]"
  have slot: "?reg ''tick'' = Some ?es" by simp
  have c0: "seq_ids (0 + 0) \<in> id_e ` set ?es" by (simp add: seq_ids_def)
  have f1: "seq_ids (0 + 1) \<notin> id_e ` set ?es" by (simp add: seq_ids_def)
  from generateUniqueIdentifier_fresh
         [where registry = ?reg and handlerName = "''tick''" and es = ?es and gen = seq_ids
            and n = 0, OF slot] f1
  obtain k where res: "generateUniqueIdentifier seq_ids ?reg ''tick'' 0
                         = Some (Inr (seq_ids (0 + k)), Suc (0 + k))"
    and fresh: "seq_ids (0 + k) \<notin> id_e ` set ?es"
    and before: "\<forall>j<k. seq_ids (0 + j) \<in> id_e ` set ?es"
    by blast
  have "k \<noteq> 0" using fresh c0 by (intro notI) simp
  moreover have "\<not> 1 < k" using before f1 by auto
  ultimately have "k = 1" by arith
  with res have "generateUniqueIdentifier seq_ids ?reg ''tick'' 0 = Some (Inr ''aa'', 2)"
    by (simp add: seq_ids_def numeral_2_eq_2)
  with slot c0 f1 show ?thesis by blast
qed

section \<open>One handler per method name\<close>

lemma exclusive_prepare:
  "exclusive registry \<Longrightarrow> exclusive (prepareHandlersRegistry registry n)"
  by (simp add: exclusive_def)

lemma exclusive_removeAllHandlers:
  "exclusive registry \<Longrightarrow> exclusive (removeAllHandlers registry n)"
  by (simp add: exclusive_def removeAllHandlers_def handlersOf_def)

lemma exclusive_singleton:
  "exclusive registry \<Longrightarrow> exclusive (registry(n \<mapsto> [e]))"
  by (simp add: exclusive_def handlersOf_def)

lemma exclusive_new: "exclusive (methodHandlers (Intercom cfg n))"
  by (simp add: exclusive_def Intercom_def handlersOf_def)

lemma emit_methodHandlers:
  "methodHandlers (snd (emit eventName payload c s)) = methodHandlers s"
  by (simp add: emit_eq)

lemma onEvent_methodHandlers:
  "onEvent gen eventName h c s = Some (r, s') \<Longrightarrow> methodHandlers s' = methodHandlers s"
  by (auto simp: onEvent_eq split: if_splits option.splits)

lemma removeAllEventHandlers_methodHandlers:
  "methodHandlers (removeAllEventHandlers eventName s) = methodHandlers s"
  by (simp add: removeAllEventHandlers_def)

lemma removeEventHandler_methodHandlers:
  "methodHandlers (snd (removeEventHandler eventName handlerId s)) = methodHandlers s"
  by (simp add: removeEventHandler_eq)

lemma exclusive_request:
  "exclusive (methodHandlers s) \<Longrightarrow>
   exclusive (methodHandlers (snd (request methodName payload c callback s)))"
  by (simp add: request_eq exclusive_prepare)

lemma exclusive_onRequest:
  "exclusive (methodHandlers s) \<Longrightarrow> onRequest gen methodName m s = Some (r, s') \<Longrightarrow>
   exclusive (methodHandlers s')"
  by (auto simp: onRequest_eq exclusive_singleton split: if_splits)

lemma exclusive_removeMethodHandler:
  "exclusive (methodHandlers s) \<Longrightarrow> exclusive (methodHandlers (removeMethodHandler methodName s))"
  by (simp add: removeMethodHandler_def exclusive_removeAllHandlers)

lemma reachable_exclusive: "reachable gen s \<Longrightarrow> exclusive (methodHandlers s)"
proof (induction rule: reachable.induct)
  case (r_new cfg n)
  show ?case by (rule exclusive_new)
next
  case (r_emit s eventName payload c)
  then show ?case by (simp add: emit_methodHandlers)
next
  case (r_onEvent s eventName h c r s')
  then show ?case by (simp add: onEvent_methodHandlers)
next
  case (r_removeAllEventHandlers s eventName)
  then show ?case by (simp add: removeAllEventHandlers_methodHandlers)
next
  case (r_removeEventHandler s eventName handlerId)
  then show ?case by (simp add: removeEventHandler_methodHandlers)
next
  case (r_request s methodName payload c callback)
  from r_request.IH show ?case by (rule exclusive_request)
next
  case (r_onRequest s methodName m r s')
  from r_onRequest.IH r_onRequest.hyps(2) show ?case by (rule exclusive_onRequest)
next
  case (r_removeMethodHandler s methodName)
  from r_removeMethodHandler.IH show ?case by (rule exclusive_removeMethodHandler)
qed

lemma onRequest_fresh:
  "onRequest seq_ids ''sum'' h fresh = Some (Inr ''a'', registered h)"
  by (simp add: onRequest_eq fresh_def Intercom_def registered_def handlersOf_def seq_ids_def)

text \<open>
  Claim C7. In every state a dispatcher can reach, whatever its configuration, the
  per-call configurations and the outcome of each call, no name of the method registry
  holds more than one entry. The invariant holds for the registry the constructor
  builds, \<open>onRequest\<close>, \<open>request\<close> and \<open>removeMethodHandler\<close> keep it from any state that has
  it, and the event operations do not touch the method registry.
\<close>

theorem method_registry_exclusive:
  assumes "reachable gen s" and "methodHandlers s methodName = Some es"
  shows "length es \<le> 1"
proof -
  from assms(1) have "exclusive (methodHandlers s)"
    by (rule reachable_exclusive)
  then have "length (handlersOf (methodHandlers s) methodName) \<le> 1"
    by (simp add: exclusive_def)
  with assms(2) show ?thesis
    by (simp add: handlersOf_def)
qed

theorem method_registry_exclusive_witness:
  "reachable seq_ids (registered first_responder)
   \<and> methodHandlers (registered first_responder) ''sum''
       = Some [\<lparr>id_e = ''a'', handler = wrapper first_responder\<rparr>]
   \<and> length [\<lparr>id_e = ''a'', handler = wrapper first_responder\<rparr>] \<le> 1"
proof -
  have "reachable seq_ids fresh"
    unfolding fresh_def by (rule r_new)
  then have r: "reachable seq_ids (registered first_responder)"
    using onRequest_fresh by (rule r_onRequest)
  have m: "methodHandlers (registered first_responder) ''sum''
             = Some [\<lparr>id_e = ''a'', handler = wrapper first_responder\<rparr>]"
    by (simp add: registered_def)
  from r m method_registry_exclusive [OF r m] show ?thesis by blast
qed

section \<open>Registering a method twice\<close>

text \<open>
  Claim C1 has a second \<open>onRequest\<close> for a name succeed and replace the handler. On the
  fresh dispatcher the first registration under \<open>sum\<close> returns its identifier; the
  second one throws \<open>E_ALREADY_EXISTS\<close> and leaves the state of the first, and a request
  that follows is answered by the first handler.
\<close>

theorem onRequest_twice_counterexample:
  "onRequest seq_ids ''sum'' first_responder fresh
     = Some (Inr ''a'', registered first_responder)
   \<and> onRequest seq_ids ''sum'' second_responder (registered first_responder)
       = Some (Inl (AlreadyExistsError ''sum''), registered first_responder)
   \<and> fst (request ''sum'' Undefined None False (registered first_responder))
       = Inr (Returned (Fulfilled (Str ''first'')))"
proof (intro conjI)
  show "onRequest seq_ids ''sum'' first_responder fresh
          = Some (Inr ''a'', registered first_responder)"
    by (rule onRequest_fresh)
  show "onRequest seq_ids ''sum'' second_responder (registered first_responder)
          = Some (Inl (AlreadyExistsError ''sum''), registered first_responder)"
    by (simp add: onRequest_eq registered_def handlersOf_def)
  show "fst (request ''sum'' Undefined None False (registered first_responder))
          = Inr (Returned (Fulfilled (Str ''first'')))"
    by (simp add: request_eq registered_def handlersOf_def first_responder_def)
qed

text \<open>
  Claim C1, as the code has it. \<open>onRequest\<close> calls
  \<open>preventRegisteringMoreThanOneHandler\<close> with the flag fixed to true, so for a name that
  holds a handler it throws the \<open>E_ALREADY_EXISTS\<close> error whose message quotes the name,
  draws no identifier and leaves the dispatcher exactly as it was: the handler registered
  before stays, and \<open>request\<close> for that name still returns what that handler produces.
\<close>

theorem onRequest_registered_name_fails:
  assumes "handlersOf (methodHandlers s) methodName \<noteq> []"
  shows "onRequest gen methodName h s
           = Some (Inl (ApplicationError ''E_ALREADY_EXISTS''
                         (''There is an already registered handler for '' @ [CHR 0x27]
                            @ methodName @ [CHR 0x27] @ '' on the registry.'')), s)
         \<and> fst (request methodName payload cfg False s)
             = Inr (Returned (handler (hd (handlersOf (methodHandlers s) methodName)) payload))"
  using assms by (simp add: onRequest_eq request_eq already_exists_message_def)

theorem onRequest_registered_name_fails_witness:
  "handlersOf (methodHandlers (registered first_responder)) ''sum'' \<noteq> []
   \<and> onRequest seq_ids ''sum'' second_responder (registered first_responder)
       = Some (Inl (AlreadyExistsError ''sum''), registered first_responder)
   \<and> fst (request ''sum'' (Num 3) None False (registered first_responder))
       = Inr (Returned (Fulfilled (Str ''first'')))"
proof -
  have h: "handlersOf (methodHandlers (registered first_responder)) ''sum'' \<noteq> []"
    by (simp add: registered_def handlersOf_def)
  have hd: "handler (hd (handlersOf (methodHandlers (registered first_responder)) ''sum''))
              (Num 3) = Fulfilled (Str ''first'')"
    by (simp add: registered_def handlersOf_def first_responder_def)
  from h hd
    onRequest_registered_name_fails
      [OF h, where gen = seq_ids and h = second_responder and payload = "Num 3" and cfg = None]
  show ?thesis
    by (simp add: already_exists_message_def)
qed

section \<open>The identifier returned by onEvent\<close>

lemma onEvent_never_returns_an_id:
  "onEvent gen eventName h cfg s \<noteq> Some (Inr i, s')"
  by (simp add: onEvent_eq split: option.splits)

text \<open>
  Claim C2. \<open>onEvent\<close> appends the entry with the identifier just generated and then reads
  the entry at the index \<open>push\<close> returned, which is the new length: one past the entry.
  Reading \<open>id\<close> there throws a \<open>TypeError\<close>, so no call returns the identifier
  (\<open>onEvent_never_returns_an_id\<close>). On the fresh dispatcher the handler is registered
  under \<open>tick\<close> with the identifier \<open>a\<close>, and the call throws.
\<close>

theorem onEvent_reads_past_the_end:
  "onEvent seq_ids ''tick'' 7 None fresh = Some (Inl TypeError, one_listener)"
  by (simp add: onEvent_eq fresh_def Intercom_def handlersOf_def loop_step one_listener_def
      seq_ids_def)

section \<open>Callback-style handlers\<close>

lemma wrapper_callback_success:
  "g payload = Some (err, result) \<Longrightarrow> \<not> truthy err \<Longrightarrow>
   wrapper (CallbackMethod g) payload = Fulfilled err"
  by simp

text \<open>
  Claim C3. The wrapper of a callback-style handler settles its promise with
  \<open>err ? reject(err) : resolve(err)\<close>: on success it resolves with the error argument,
  not with the result. A handler that completes with \<open>(undefined, 42)\<close> is registered
  under \<open>sum\<close>; the promise \<open>request\<close> returns resolves to \<open>undefined\<close>, and in callback
  mode the callback receives \<open>(undefined, undefined)\<close>.
\<close>

theorem request_callback_handler_result_lost:
  "onRequest seq_ids ''sum'' callback_responder fresh
     = Some (Inr ''a'', registered callback_responder)
   \<and> fst (request ''sum'' (Num 1) None False (registered callback_responder))
       = Inr (Returned (Fulfilled Undefined))
   \<and> fst (request ''sum'' (Num 1) None True (registered callback_responder))
       = Inr (Called (Some (Undefined, Undefined)))"
proof (intro conjI)
  show "onRequest seq_ids ''sum'' callback_responder fresh
          = Some (Inr ''a'', registered callback_responder)"
    by (rule onRequest_fresh)
  show "fst (request ''sum'' (Num 1) None False (registered callback_responder))
          = Inr (Returned (Fulfilled Undefined))"
    by (simp add: request_eq registered_def handlersOf_def callback_responder_def)
  show "fst (request ''sum'' (Num 1) None True (registered callback_responder))
          = Inr (Called (Some (Undefined, Undefined)))"
    by (simp add: request_eq registered_def handlersOf_def callback_responder_def)
qed

section \<open>The per-call flag of request\<close>

lemma request_strict_dispatcher:
  "throwErrorIfNoMethodHandlerFound (config s) \<Longrightarrow>
   handlersOf (methodHandlers s) methodName = [] \<Longrightarrow>
   fst (request methodName payload cfg callback s) = Inl (NoHandlerError methodName)"
  by (simp add: request_eq)

text \<open>
  Claim C4. \<open>request\<close> combines the per-call flag and the dispatcher's flag with \<open>||\<close>,
  so a per-call \<open>false\<close> cannot switch off a dispatcher default of \<open>true\<close>: on the fresh
  dispatcher, \<open>request\<close> for a name without handler, called with
  \<open>{throwErrorIfNoMethodHandlerFound: false}\<close>, throws \<open>E_NO_HANDLER\<close> in both modes.
  \<open>emit\<close> chooses with \<open>config ? ... : ...\<close>, and there a per-call \<open>false\<close> does override a
  dispatcher that is strict.
\<close>

theorem request_per_call_false_ignored:
  "fst (request ''sum'' Undefined (Some False) False fresh) = Inl (NoHandlerError ''sum'')
   \<and> fst (request ''sum'' Undefined (Some False) True fresh) = Inl (NoHandlerError ''sum'')
   \<and> fst (emit ''sum'' Undefined (Some False)
             (Intercom (Some (defaultIntercomConfig\<lparr>throwErrorIfNoEventHandlerFound := True\<rparr>))
                0 :: nat intercom)) = Inr []"
  by (simp add: request_eq emit_eq fresh_def Intercom_def handlersOf_def
      defaultIntercomConfig_def)

section \<open>Reading the first handler\<close>

text \<open>
  Claim C10. When neither the per-call flag nor the dispatcher's flag asks for the
  \<open>E_NO_HANDLER\<close> error, nothing stands between \<open>request\<close> and the read of element \<open>0\<close>:
  the call throws a \<open>TypeError\<close> exactly when no handler is registered under the name,
  and with a handler registered it returns. (When a flag is set, the empty case is caught
  before the read: \<open>request_strict_dispatcher\<close>.)
\<close>

theorem request_first_handler_guard:
  assumes "\<not> ((case cfg of Some c \<Rightarrow> c | None \<Rightarrow> False)
               \<or> throwErrorIfNoMethodHandlerFound (config s))"
  shows "(fst (request methodName payload cfg callback s) = Inl TypeError)
           = (handlersOf (methodHandlers s) methodName = [])
         \<and> (handlersOf (methodHandlers s) methodName \<noteq> [] \<longrightarrow>
              (\<exists>out. fst (request methodName payload cfg callback s) = Inr out))"
  using assms by (simp add: request_eq)

theorem request_first_handler_guard_witness:
  "\<not> ((case Some False of Some c \<Rightarrow> c | None \<Rightarrow> False)
        \<or> throwErrorIfNoMethodHandlerFound (config lenient))
   \<and> handlersOf (methodHandlers lenient) ''sum'' = []
   \<and> fst (request ''sum'' Undefined (Some False) False lenient) = Inl TypeError"
proof -
  have a: "\<not> ((case Some False of Some c \<Rightarrow> c | None \<Rightarrow> False)
               \<or> throwErrorIfNoMethodHandlerFound (config lenient))"
    by (simp add: lenient_def Intercom_def)
  have e: "handlersOf (methodHandlers lenient) ''sum'' = []"
    by (simp add: lenient_def Intercom_def handlersOf_def)
  from a e request_first_handler_guard
             [OF a, where methodName = "''sum''" and payload = Undefined and callback = False]
  show ?thesis by simp
qed

section \<open>Removing one event handler\<close>

lemma filter_remove1:
  "distinct (map f xs) \<Longrightarrow> e \<in> set xs \<Longrightarrow> filter (\<lambda>x. f x \<noteq> f e) xs = remove1 e xs"
proof (induction xs)
  case Nil
  then show ?case by simp
next
  case (Cons x xs)
  show ?case
  proof (cases "x = e")
    case True
    with Cons.prems(1) have "f e \<notin> f ` set xs" by simp
    then have "\<forall>y\<in>set xs. f y \<noteq> f e" by (metis imageI)
    then have "filter (\<lambda>y. f y \<noteq> f e) xs = xs" by (simp add: filter_id_conv)
    with True show ?thesis by simp
  next
    case False
    with Cons.prems have "e \<in> set xs" and "f x \<notin> f ` set xs" by auto
    then have "e \<in> set xs" and "f x \<noteq> f e" by (metis imageI)+
    with Cons.IH Cons.prems(1) False show ?thesis by simp
  qed
qed

lemma prepare_as_update:
  "prepareHandlersRegistry registry n = registry(n \<mapsto> handlersOf registry n)"
  by (cases "registry n") (auto simp: prepareHandlersRegistry_def handlersOf_def)

text \<open>In every reachable state the identifiers under an event name are distinct.\<close>

lemma onEvent_ids:
  assumes "onEvent gen eventName h c s = Some (r, s')"
    and "distinct (map id_e (handlersOf (eventHandlers s) n))"
  shows "distinct (map id_e (handlersOf (eventHandlers s') n))"
proof (cases "s' = s")
  case True
  with assms(2) show ?thesis by simp
next
  case False
  with assms(1) obtain i k where
    loop: "generateUniqueIdentifier_loop gen (handlersOf (eventHandlers s) eventName) (drawn s)
             = Some (i, k)"
    and s': "s' = s\<lparr>eventHandlers :=
                      (eventHandlers s)
                        (eventName \<mapsto> handlersOf (eventHandlers s) eventName
                                          @ [\<lparr>id_e = i, handler = h\<rparr>]),
                    drawn := k\<rparr>"
    by (auto simp: onEvent_eq split: if_splits option.splits)
  from loop_result [OF loop]
  have new: "i \<notin> id_e ` set (handlersOf (eventHandlers s) eventName)"
    by auto
  show ?thesis
  proof (cases "n = eventName")
    case True
    with assms(2) new show ?thesis
      by (simp add: s' handlersOf_def)
  next
    case False
    with assms(2) show ?thesis
      by (simp add: s' handlersOf_def)
  qed
qed

lemma reachable_ids_distinct:
  "reachable gen s \<Longrightarrow> distinct (map id_e (handlersOf (eventHandlers s) n))"
proof (induction rule: reachable.induct)
  case (r_new cfg k)
  show ?case by (simp add: Intercom_def handlersOf_def)
next
  case (r_emit s eventName payload c)
  then show ?case by (simp add: emit_eq)
next
  case (r_onEvent s eventName h c r s')
  from r_onEvent.hyps(2) r_onEvent.IH show ?case by (rule onEvent_ids)
next
  case (r_removeAllEventHandlers s eventName)
  then show ?case
    by (cases "n = eventName")
       (simp_all add: removeAllEventHandlers_def removeAllHandlers_def handlersOf_def)
next
  case (r_removeEventHandler s eventName handlerId)
  then show ?case
    by (cases "n = eventName")
       (simp_all add: removeEventHandler_eq handlersOf_def distinct_map_filter)
next
  case (r_request s methodName payload c callback)
  then show ?case by (simp add: request_eq)
next
  case (r_onRequest s methodName m r s')
  then show ?case by (auto simp: onRequest_eq split: if_splits)
next
  case (r_removeMethodHandler s methodName)
  then show ?case by (simp add: removeMethodHandler_def)
qed

text \<open>
  Claim C9. \<open>removeEventHandler\<close> never throws. The entries of the name afterwards are
  those whose \<open>id\<close> differs from the one given, in their order; the slots of all other
  names, and the method registry, are untouched. When no entry carries the identifier,
  the entries of the name are as before (the state is the one \<open>prepareHandlersRegistry\<close>
  leaves: a name without a slot gets an empty one). When the identifiers under the name
  are distinct, as they are in every reachable state (\<open>reachable_ids_distinct\<close>), exactly
  the one entry carrying the identifier is removed.
\<close>

theorem removeEventHandler_frame:
  "fst (removeEventHandler eventName handlerId s) = Inr ()
   \<and> handlersOf (eventHandlers (snd (removeEventHandler eventName handlerId s))) eventName
       = filter (\<lambda>e. id_e e \<noteq> handlerId) (handlersOf (eventHandlers s) eventName)
   \<and> (\<forall>n. n \<noteq> eventName \<longrightarrow>
          eventHandlers (snd (removeEventHandler eventName handlerId s)) n = eventHandlers s n)
   \<and> methodHandlers (snd (removeEventHandler eventName handlerId s)) = methodHandlers s
   \<and> (handlerId \<notin> id_e ` set (handlersOf (eventHandlers s) eventName) \<longrightarrow>
        handlersOf (eventHandlers (snd (removeEventHandler eventName handlerId s))) eventName
          = handlersOf (eventHandlers s) eventName
        \<and> snd (removeEventHandler eventName handlerId s)
            = s\<lparr>eventHandlers := prepareHandlersRegistry (eventHandlers s) eventName\<rparr>)
   \<and> (\<forall>e. e \<in> set (handlersOf (eventHandlers s) eventName) \<and> id_e e = handlerId
            \<and> distinct (map id_e (handlersOf (eventHandlers s) eventName)) \<longrightarrow>
          handlersOf (eventHandlers (snd (removeEventHandler eventName handlerId s))) eventName
            = remove1 e (handlersOf (eventHandlers s) eventName))"
proof -
  let ?es = "handlersOf (eventHandlers s) eventName"
  have keep: "handlerId \<notin> id_e ` set ?es \<Longrightarrow> filter (\<lambda>e. id_e e \<noteq> handlerId) ?es = ?es"
    by (auto simp: filter_id_conv)
  have one: "\<And>e. e \<in> set ?es \<Longrightarrow> id_e e = handlerId \<Longrightarrow> distinct (map id_e ?es) \<Longrightarrow>
                 filter (\<lambda>e. id_e e \<noteq> handlerId) ?es = remove1 e ?es"
    using filter_remove1 [of id_e ?es] by auto
  show ?thesis
    using keep one
    by (simp add: removeEventHandler_eq handlersOf_Some prepare_as_update)
qed

theorem removeEventHandler_frame_witness:
  "\<lparr>id_e = ''a'', handler = 7\<rparr> \<in> set (handlersOf (eventHandlers two_listeners) ''tick'')
   \<and> distinct (map id_e (handlersOf (eventHandlers two_listeners) ''tick''))
   \<and> handlersOf (eventHandlers (snd (removeEventHandler ''tick'' ''a'' two_listeners))) ''tick''
       = [\<lparr>id_e = ''aa'', handler = 8\<rparr>]
   \<and> ''zz'' \<notin> id_e ` set (handlersOf (eventHandlers two_listeners) ''tick'')
   \<and> snd (removeEventHandler ''tick'' ''zz'' two_listeners) = two_listeners"
proof -
  let ?es = "handlersOf (eventHandlers two_listeners) ''tick''"
  let ?e = "\<lparr>id_e = ''a'', handler = 7 :: nat\<rparr>"
  have es: "?es = [?e, \<lparr>id_e = ''aa'', handler = 8\<rparr>]"
    by (simp add: two_listeners_def handlersOf_def)
  have a: "?e \<in> set ?es" by (simp add: es)
  have d: "distinct (map id_e ?es)" by (simp add: es)
  have z: "''zz'' \<notin> id_e ` set ?es" by (simp add: es)
  have p: "two_listeners\<lparr>eventHandlers := prepareHandlersRegistry (eventHandlers two_listeners) ''tick''\<rparr>
             = two_listeners"
    by (simp add: two_listeners_def prepareHandlersRegistry_def)
  have "handlersOf (eventHandlers (snd (removeEventHandler ''tick'' ''a'' two_listeners))) ''tick''
          = remove1 ?e ?es"
    using removeEventHandler_frame [of "''tick''" "''a''" two_listeners] a d by auto
  moreover have "snd (removeEventHandler ''tick'' ''zz'' two_listeners) = two_listeners"
    using removeEventHandler_frame [of "''tick''" "''zz''" two_listeners] z p by simp
  ultimately show ?thesis
    using a d z by (simp add: es)
qed

section \<open>Operations that fail\<close>

text \<open>
  Claim C8 has every operation that fails leave both registries unchanged. \<open>emit\<close> and
  \<open>request\<close> prepare the slot before they check for handlers: on the fresh dispatcher a
  strict \<open>emit\<close> for \<open>ping\<close> throws \<open>E_NO_HANDLER\<close>, and the event registry, which had no
  slot for \<open>ping\<close>, now has an empty one.
\<close>

theorem failed_emit_counterexample:
  "fst (emit ''ping'' Undefined (Some True) fresh) = Inl (NoHandlerError ''ping'')
   \<and> eventHandlers fresh ''ping'' = None
   \<and> eventHandlers (snd (emit ''ping'' Undefined (Some True) fresh)) ''ping'' = Some []
   \<and> eventHandlers (snd (emit ''ping'' Undefined (Some True) fresh)) \<noteq> eventHandlers fresh"
proof -
  have a: "fst (emit ''ping'' Undefined (Some True) fresh) = Inl (NoHandlerError ''ping'')"
    by (simp add: emit_eq fresh_def Intercom_def handlersOf_def)
  have b: "eventHandlers fresh ''ping'' = None"
    by (simp add: fresh_def Intercom_def)
  have c: "eventHandlers (snd (emit ''ping'' Undefined (Some True) fresh)) ''ping'' = Some []"
    by (simp add: emit_eq fresh_def Intercom_def handlersOf_def)
  from b c have "eventHandlers (snd (emit ''ping'' Undefined (Some True) fresh))
                   \<noteq> eventHandlers fresh"
    by (metis option.distinct(1))
  with a b c show ?thesis by blast
qed

text \<open>
  Claim C8, as the code has it. An operation that throws \<open>E_NO_HANDLER\<close> or
  \<open>E_ALREADY_EXISTS\<close> adds, removes and alters no entry: the entries under every name
  are the same in both registries. A failing \<open>emit\<close> or \<open>request\<close> leaves the state
  \<open>prepareHandlersRegistry\<close> produces, which is the state before when the name had a slot
  and differs from it by one empty slot otherwise. A failing \<open>onEvent\<close> or \<open>onRequest\<close>
  leaves the state exactly as it was; and \<open>onEvent\<close> does fail so whenever duplicates are
  prevented and the name holds a handler: that handler stays, and no entry is added.
\<close>

theorem failed_operation_keeps_entries:
  "(fst (emit eventName payload ecfg s) = Inl (ApplicationError code msg) \<longrightarrow>
      snd (emit eventName payload ecfg s)
        = s\<lparr>eventHandlers := prepareHandlersRegistry (eventHandlers s) eventName\<rparr>
      \<and> (\<forall>n. handlersOf (eventHandlers (snd (emit eventName payload ecfg s))) n
               = handlersOf (eventHandlers s) n)
      \<and> methodHandlers (snd (emit eventName payload ecfg s)) = methodHandlers s
      \<and> (eventHandlers s eventName \<noteq> None \<longrightarrow> snd (emit eventName payload ecfg s) = s))
   \<and> (fst (request methodName payload rcfg callback s) = Inl (ApplicationError code msg) \<longrightarrow>
      snd (request methodName payload rcfg callback s)
        = s\<lparr>methodHandlers := prepareHandlersRegistry (methodHandlers s) methodName\<rparr>
      \<and> (\<forall>n. handlersOf (methodHandlers (snd (request methodName payload rcfg callback s))) n
               = handlersOf (methodHandlers s) n)
      \<and> eventHandlers (snd (request methodName payload rcfg callback s)) = eventHandlers s
      \<and> (methodHandlers s methodName \<noteq> None \<longrightarrow>
           snd (request methodName payload rcfg callback s) = s))
   \<and> (onEvent gen eventName h ocfg s = Some (Inl (ApplicationError code msg), s') \<longrightarrow> s' = s)
   \<and> (onRequest gen methodName m s = Some (Inl (ApplicationError code msg), s') \<longrightarrow> s' = s)
   \<and> (handlersOf (eventHandlers s) eventName \<noteq> []
        \<and> ((case ocfg of Some c \<Rightarrow> c | None \<Rightarrow> False)
           \<or> preventDuplicatedEventListeners (config s)) \<longrightarrow>
        onEvent gen eventName h ocfg s = Some (Inl (AlreadyExistsError eventName), s))"
proof (intro conjI)
  show "fst (emit eventName payload ecfg s) = Inl (ApplicationError code msg) \<longrightarrow>
      snd (emit eventName payload ecfg s)
        = s\<lparr>eventHandlers := prepareHandlersRegistry (eventHandlers s) eventName\<rparr>
      \<and> (\<forall>n. handlersOf (eventHandlers (snd (emit eventName payload ecfg s))) n
               = handlersOf (eventHandlers s) n)
      \<and> methodHandlers (snd (emit eventName payload ecfg s)) = methodHandlers s
      \<and> (eventHandlers s eventName \<noteq> None \<longrightarrow> snd (emit eventName payload ecfg s) = s)"
    by (auto simp: emit_eq prepare_present)
  show "fst (request methodName payload rcfg callback s) = Inl (ApplicationError code msg) \<longrightarrow>
      snd (request methodName payload rcfg callback s)
        = s\<lparr>methodHandlers := prepareHandlersRegistry (methodHandlers s) methodName\<rparr>
      \<and> (\<forall>n. handlersOf (methodHandlers (snd (request methodName payload rcfg callback s))) n
               = handlersOf (methodHandlers s) n)
      \<and> eventHandlers (snd (request methodName payload rcfg callback s)) = eventHandlers s
      \<and> (methodHandlers s methodName \<noteq> None \<longrightarrow>
           snd (request methodName payload rcfg callback s) = s)"
    by (auto simp: request_eq prepare_present)
  show "onEvent gen eventName h ocfg s = Some (Inl (ApplicationError code msg), s') \<longrightarrow> s' = s"
    by (auto simp: onEvent_eq split: if_splits option.splits)
  show "onRequest gen methodName m s = Some (Inl (ApplicationError code msg), s') \<longrightarrow> s' = s"
    by (auto simp: onRequest_eq split: if_splits)
  show "handlersOf (eventHandlers s) eventName \<noteq> []
        \<and> ((case ocfg of Some c \<Rightarrow> c | None \<Rightarrow> False)
           \<or> preventDuplicatedEventListeners (config s)) \<longrightarrow>
        onEvent gen eventName h ocfg s = Some (Inl (AlreadyExistsError eventName), s)"
    by (simp add: onEvent_eq)
qed

theorem failed_operation_keeps_entries_witness:
  "fst (emit ''ping'' Undefined (Some True) fresh) = Inl (NoHandlerError ''ping'')
   \<and> handlersOf (eventHandlers (snd (emit ''ping'' Undefined (Some True) fresh))) ''ping''
       = handlersOf (eventHandlers fresh) ''ping''
   \<and> methodHandlers (snd (emit ''ping'' Undefined (Some True) fresh)) = methodHandlers fresh
   \<and> handlersOf (eventHandlers one_listener) ''tick'' \<noteq> []
   \<and> onEvent seq_ids ''tick'' 9 (Some True) one_listener
       = Some (Inl (AlreadyExistsError ''tick''), one_listener)"
proof -
  have a: "fst (emit ''ping'' Undefined (Some True) fresh)
             = Inl (ApplicationError ''E_NO_HANDLER'' (no_handler_message ''ping''))"
    by (simp add: emit_eq fresh_def Intercom_def handlersOf_def)
  have b: "handlersOf (eventHandlers one_listener) ''tick'' \<noteq> []"
    by (simp add: one_listener_def handlersOf_def)
  have c: "(case Some True of Some c \<Rightarrow> c | None \<Rightarrow> False)
             \<or> preventDuplicatedEventListeners (config one_listener)"
    by simp
  note t1 = failed_operation_keeps_entries
              [where eventName = "''ping''" and payload = Undefined and ecfg = "Some True"
                 and s = fresh and code = "''E_NO_HANDLER''"
                 and msg = "no_handler_message ''ping''"]
  note t2 = failed_operation_keeps_entries
              [where eventName = "''tick''" and ocfg = "Some True" and s = one_listener
                 and gen = seq_ids and h = 9]
  from a t1 have
    "handlersOf (eventHandlers (snd (emit ''ping'' Undefined (Some True) fresh))) ''ping''
       = handlersOf (eventHandlers fresh) ''ping''"
    "methodHandlers (snd (emit ''ping'' Undefined (Some True) fresh)) = methodHandlers fresh"
    by blast+
  moreover from b c t2 have
    "onEvent seq_ids ''tick'' 9 (Some True) one_listener
       = Some (Inl (AlreadyExistsError ''tick''), one_listener)"
    by blast
  ultimately show ?thesis using a b by blast
qed

end
